theory Spec2Isabelle
  imports Main "HOL-Library.Sublist"
begin

section \<open>JavaScript values\<close>

text \<open>
  The tools of the repository are JavaScript. A field of an object read from a JSON or
  CSV file can hold any value, so fields are modelled as values of \<open>js_value\<close>.
  Numbers are the integers the tools compute with (lengths, counts, indices and the
  numeric command-line options); \<open>JObject\<close> stands for a plain object whose content
  the modelled functions never inspect. A \<open>string\<close> is the list of the code units of
  a JavaScript string: \<open>length\<close> is \<open>.length\<close> and \<open>take\<close> is
  \<open>.substring(0, n)\<close>.
\<close>

datatype js_value =
    JUndefined
  | JNull
  | JBool bool
  | JNumber int
  | JString string
  | JObject

text \<open>Truthiness, as \<open>if (v)\<close>, \<open>!v\<close> and \<open>v || d\<close> read it.\<close>

fun truthy :: "js_value \<Rightarrow> bool" where
  "truthy JUndefined = False"
| "truthy JNull = False"
| "truthy (JBool b) = b"
| "truthy (JNumber n) = (n \<noteq> 0)"
| "truthy (JString s) = (s \<noteq> [])"
| "truthy JObject = True"

definition js_or :: "js_value \<Rightarrow> js_value \<Rightarrow> js_value" where
  "js_or a b = (if truthy a then a else b)"

text \<open>
  \<open>options.x || d\<close> for a numeric option: \<open>None\<close> is an option that is absent
  (or not a number), and \<open>0\<close> is falsy, so both give the default.
\<close>

fun num_or :: "int option \<Rightarrow> int \<Rightarrow> int" where
  "num_or None d = d"
| "num_or (Some n) d = (if n = 0 then d else n)"

section \<open>Errors\<close>

text \<open>
  Modelled from the spec: the failure classes of a delivery outcome (section 3 of the
  specification). The source has no classification of errors; the class is carried by
  a provider error only so that statements about classes can be written, and no
  function of the sender reads it.
\<close>

datatype error_class = InvalidRecipient | RecipientMoved | Transient | Fatal

text \<open>
  A thrown value: a \<open>TypeError\<close> of the runtime (a method called on a value that has
  none), the error a rejected \<open>sns.publish\<close> carries, or a \<open>new Error(message)\<close>.
\<close>

datatype js_error =
    TypeError string
  | ProviderError string error_class
  | PlainError string

fun error_message :: "js_error \<Rightarrow> string" where
  "error_message (TypeError m) = m"
| "error_message (ProviderError m c) = m"
| "error_message (PlainError m) = m"

section \<open>The batch sender (tools/batch-sender.js)\<close>

record notification =
  fcmToken :: js_value
  title :: js_value
  message :: js_value
  data :: js_value
  batchId :: js_value

text \<open>The fields \<open>constructor(options = {})\<close> reads; \<open>None\<close> is an absent option.\<close>

record options =
  opt_snsTopicArn :: "string option"
  opt_batchSize :: "int option"
  opt_delayBetweenBatches :: "int option"
  opt_maxRetries :: "int option"
  opt_retryDelay :: "int option"

record sender =
  snsTopicArn :: "string option"
  batchSize :: int
  delayBetweenBatches :: int
  maxRetries :: int
  retryDelay :: int

text \<open>
  The constructor; \<open>env\<close> is \<open>process.env.SNS_TOPIC_ARN\<close>. An empty string is falsy.
\<close>

definition str_or :: "string option \<Rightarrow> string option \<Rightarrow> string option" where
  "str_or a b = (case a of None \<Rightarrow> b | Some s \<Rightarrow> (if s = [] then b else Some s))"

definition constructor :: "options \<Rightarrow> string option \<Rightarrow> sender" where
  "constructor opts env =
     \<lparr> snsTopicArn = str_or (opt_snsTopicArn opts) env,
       batchSize = num_or (opt_batchSize opts) 10,
       delayBetweenBatches = num_or (opt_delayBetweenBatches opts) 1000,
       maxRetries = num_or (opt_maxRetries opts) 3,
       retryDelay = num_or (opt_retryDelay opts) 2000 \<rparr>"

text \<open>
  \<open>validateNotification\<close>: the list of error messages. \<open>v.length\<close> is the length
  of a string and \<open>undefined\<close> for a number, a boolean or a plain object, and
  \<open>undefined > 100\<close> is false.
\<close>

fun longer_than :: "js_value \<Rightarrow> nat \<Rightarrow> bool" where
  "longer_than (JString t) m = (length t > m)"
| "longer_than v m = False"

definition validateNotification :: "notification \<Rightarrow> string list" where
  "validateNotification n =
     (if \<not> truthy (fcmToken n) then [''Missing fcmToken''] else []) @
     (if \<not> truthy (title n) \<and> \<not> truthy (data n) then [''Must have either title or data''] else []) @
     (if truthy (title n) \<and> longer_than (title n) 100
      then [''Title too long (max 100 characters)''] else []) @
     (if truthy (message n) \<and> longer_than (message n) 500
      then [''Message too long (max 500 characters)''] else [])"

text \<open>
  The record a send returns: \<open>{success, messageId, fcmToken}\<close> or
  \<open>{success, error, fcmToken}\<close>. A property an object does not have reads as
  \<open>undefined\<close>. The field \<open>fcmToken\<close> of the result is named \<open>tokenPrefix\<close> here,
  the notification's field keeping the name.
\<close>

record send_result =
  success :: js_value
  messageId :: js_value
  error :: js_value
  tokenPrefix :: js_value

text \<open>
  \<open>notification.fcmToken.substring(0, 10) + '...'\<close>: a string has the method, and
  \<open>substring\<close> stops at the end of a shorter string; \<open>undefined\<close> and \<open>null\<close> have
  no properties, and a number, a boolean or a plain object has no \<open>substring\<close>.
\<close>

fun redact :: "js_value \<Rightarrow> js_error + js_value" where
  "redact (JString t) = Inr (JString (take 10 t @ ''...''))"
| "redact JUndefined = Inl (TypeError ''Cannot read properties of undefined'')"
| "redact JNull = Inl (TypeError ''Cannot read properties of null'')"
| "redact v = Inl (TypeError ''notification.fcmToken.substring is not a function'')"

text \<open>
  What \<open>sns.publish(params).promise()\<close> settles to, and the effects of a send that
  the environment sees: a call of the provider with its parameters, and a wait.
  The published message is the notification with \<open>batchId\<close> defaulted to
  \<open>'manual'\<close> (its \<open>timestamp\<close>, read from the clock, is left out).
\<close>

datatype publish_result = Resolved string | Rejected js_error

record publish_params =
  TopicArn :: "string option"
  Message :: notification

datatype event = Publish publish_params | Delay int

definition params_of :: "sender \<Rightarrow> notification \<Rightarrow> publish_params" where
  "params_of s n =
     \<lparr> TopicArn = snsTopicArn s,
       Message = n\<lparr> batchId := js_or (batchId n) (JString ''manual'') \<rparr> \<rparr>"

text \<open>
  The body of the \<open>try\<close> block: the provider is called, and on success the result
  record is built. \<open>publish k\<close> is the provider's answer to the attempt made with
  \<open>retryCount = k\<close>; the theorems hold for every such answer function.
\<close>

definition try_send :: "(nat \<Rightarrow> publish_result) \<Rightarrow> notification \<Rightarrow> nat \<Rightarrow> js_error + send_result" where
  "try_send publish n retryCount =
     (case publish retryCount of
        Rejected e \<Rightarrow> Inl e
      | Resolved mid \<Rightarrow>
          (case redact (fcmToken n) of
             Inl e \<Rightarrow> Inl e
           | Inr t \<Rightarrow> Inr \<lparr> success = JBool True, messageId = JString mid,
                             error = JUndefined, tokenPrefix = t \<rparr>))"

text \<open>The final \<open>return\<close> of the \<open>catch\<close> block; it is outside the \<open>try\<close>.\<close>

definition failure_record :: "js_error \<Rightarrow> notification \<Rightarrow> js_error + send_result" where
  "failure_record e n =
     (case redact (fcmToken n) of
        Inl e' \<Rightarrow> Inl e'
      | Inr t \<Rightarrow> Inr \<lparr> success = JBool False, messageId = JUndefined,
                        error = JString (error_message e), tokenPrefix = t \<rparr>)"

text \<open>
  \<open>sendSingleNotification(notification, retryCount = 0)\<close>. The result is the trace
  of effects and what the promise settles to: \<open>Inl\<close> is a rejection.
  (\<open>console.log\<close> is not modelled.)
\<close>

function sendSingleNotification ::
  "sender \<Rightarrow> (nat \<Rightarrow> publish_result) \<Rightarrow> notification \<Rightarrow> nat \<Rightarrow> event list \<times> (js_error + send_result)" where
  "sendSingleNotification s publish n retryCount =
     (case try_send publish n retryCount of
        Inr r \<Rightarrow> ([Publish (params_of s n)], Inr r)
      | Inl e \<Rightarrow>
          if int retryCount < maxRetries s then
            (case sendSingleNotification s publish n (Suc retryCount) of
               (tr, out) \<Rightarrow> (Publish (params_of s n) # Delay (retryDelay s) # tr, out))
          else ([Publish (params_of s n)], failure_record e n))"
  by pat_completeness auto
termination
  by (relation "measure (\<lambda>(s, publish, n, retryCount). nat (maxRetries s - int retryCount))") auto

declare sendSingleNotification.simps [simp del]


text \<open>
  \<open>Array.prototype.slice(start, end)\<close>: a negative index counts from the end,
  and both indices are clamped to the array.
\<close>

definition js_index :: "nat \<Rightarrow> int \<Rightarrow> nat" where
  "js_index len k = (if k < 0 then nat (max (int len + k) 0) else min (nat k) len)"

definition slice :: "'a list \<Rightarrow> int \<Rightarrow> int \<Rightarrow> 'a list" where
  "slice xs start fin =
     (let k = js_index (length xs) start; f = js_index (length xs) fin
      in take (f - k) (drop k xs))"

text \<open>
  \<open>Promise.all\<close>: the results in order, or a rejection when a promise rejects
  (the one that rejects first in time; the model takes the first in the list).
\<close>

fun promise_all :: "(js_error + 'a) list \<Rightarrow> js_error + 'a list" where
  "promise_all [] = Inr []"
| "promise_all (Inl e # ps) = Inl e"
| "promise_all (Inr v # ps) = (case promise_all ps of Inl e \<Rightarrow> Inl e | Inr vs \<Rightarrow> Inr (v # vs))"

text \<open>
  What one run of \<open>sendBatch\<close> does, in order: a batch is sliced and its sends are
  started together (the traces of the sends, one for each notification of the batch,
  run concurrently), and the sender waits between two batches.
\<close>

datatype batch_event = Batch "notification list" "event list list" | Wait int

text \<open>
  The \<open>for\<close> loop of \<open>sendBatch\<close>, with its variables \<open>i\<close> and \<open>results\<close>.
  \<open>provider p k\<close> is the provider's answer to the attempt \<open>k\<close> for the notification
  at position \<open>p\<close> of the input. The loop need not end (\<open>i += this.batchSize\<close> with
  a negative size), so the result is an option and \<open>None\<close> is a run that never
  returns; \<open>Some (log, Inl e)\<close> is a run that rejects, \<open>Some (log, Inr results)\<close>
  one that returns.
\<close>

partial_function (option) sendBatch_loop ::
  "sender \<Rightarrow> (nat \<Rightarrow> nat \<Rightarrow> publish_result) \<Rightarrow> notification list \<Rightarrow> int \<Rightarrow>
   send_result list \<Rightarrow> batch_event list \<Rightarrow> (batch_event list \<times> (js_error + send_result list)) option" where
  "sendBatch_loop s provider ns i results log =
     (if i < int (length ns) then
        (let batch = slice ns i (i + batchSize s);
             first = js_index (length ns) i;
             runs = map (\<lambda>(p, n). sendSingleNotification s (provider p) n 0)
                        (zip [first ..< first + length batch] batch);
             log' = log @ [Batch batch (map fst runs)]
         in case promise_all (map snd runs) of
              Inl e \<Rightarrow> Some (log', Inl e)
            | Inr batchResults \<Rightarrow>
                sendBatch_loop s provider ns (i + batchSize s) (results @ batchResults)
                  (if i + batchSize s < int (length ns)
                   then log' @ [Wait (delayBetweenBatches s)] else log'))
      else Some (log, Inr results))"

declare sendBatch_loop.simps [code]

definition sendBatch ::
  "sender \<Rightarrow> (nat \<Rightarrow> nat \<Rightarrow> publish_result) \<Rightarrow> notification list \<Rightarrow>
   (batch_event list \<times> (js_error + send_result list)) option" where
  "sendBatch s provider ns = sendBatch_loop s provider ns 0 [] []"


text \<open>The batches of a run, in the order in which the loop sliced them.\<close>

fun batches_of :: "batch_event list \<Rightarrow> notification list list" where
  "batches_of [] = []"
| "batches_of (Batch b trs # es) = b # batches_of es"
| "batches_of (Wait d # es) = batches_of es"

text \<open>
  The chunking in the words of the specification (section 4.2): consecutive groups of
  exactly \<open>n\<close> elements except the last, which may be smaller. It is what the
  loop's slices are compared with.
\<close>

function chunks :: "nat \<Rightarrow> 'a list \<Rightarrow> 'a list list" where
  "chunks n xs = (if n = 0 \<or> xs = [] then [] else take n xs # chunks n (drop n xs))"
  by pat_completeness auto
termination
  by (relation "measure (\<lambda>(n, xs). length xs)") auto

declare chunks.simps [simp del]


text \<open>
  \<open>generateSummary(results)\<close>. Of the report, \<open>successRate\<close> (a floating-point
  number printed with two decimals), \<open>timestamp\<close> (the clock) and \<open>errorCounts\<close>
  (a tally of the failed results by error message) are left out; none of them enters
  the three counts.
\<close>

record summary =
  total :: nat
  successful :: nat
  failed :: nat

record report =
  summary :: summary
  failedNotifications :: "send_result list"
  sampleSuccesses :: "send_result list"

definition generateSummary :: "send_result list \<Rightarrow> report" where
  "generateSummary results =
     (let successful = filter (\<lambda>r. truthy (success r)) results;
          failed = filter (\<lambda>r. \<not> truthy (success r)) results
      in \<lparr> summary = \<lparr> total = length results, successful = length successful,
                         failed = length failed \<rparr>,
           failedNotifications = slice failed 0 10,
           sampleSuccesses = slice successful 0 5 \<rparr>)"

section \<open>The token validators (the notification testing tool and the FCM token validator)\<close>

text \<open>The character classes of the regular expressions.\<close>

definition word_char :: "char \<Rightarrow> bool" where
  "word_char c = (c \<in> set ''ABCDEFGHIJKLMNOPQRSTUVWXYZabcdefghijklmnopqrstuvwxyz0123456789_-'')"

definition allowed_char :: "char \<Rightarrow> bool" where
  "allowed_char c = (c \<in> set ''ABCDEFGHIJKLMNOPQRSTUVWXYZabcdefghijklmnopqrstuvwxyz0123456789_:.-'')"

text \<open>\<open>/^[A-Za-z0-9_:.-]+$/.test(token)\<close>: one or more characters, all of the class.\<close>

definition only_allowed :: "string \<Rightarrow> bool" where
  "only_allowed t = (t \<noteq> [] \<and> list_all allowed_char t)"

text \<open>
  \<open>token.match(/^[A-Za-z0-9_-]+:[A-Za-z0-9_-]+/)\<close>: the token starts with one or
  more characters of the class, a colon, and one more character of the class. A colon
  is not of the class, so the first run of the class must be the longest one.
\<close>

definition fcm_format :: "string \<Rightarrow> bool" where
  "fcm_format t =
     (takeWhile word_char t \<noteq> [] \<and>
      (case dropWhile word_char t of
         c # d # rest \<Rightarrow> c = CHR '':'' \<and> word_char d
       | _ \<Rightarrow> False))"

fun validateFCMToken :: "js_value \<Rightarrow> bool" where
  "validateFCMToken (JString token) =
     (if token = [] then False
      else if length token < 140 \<or> length token > 200 then False
      else if \<not> only_allowed token then False
      else True)"
| "validateFCMToken v = False"

record validation =
  valid :: bool
  errors :: "string list"

fun validateTokenFormat :: "js_value \<Rightarrow> validation" where
  "validateTokenFormat (JString token) =
     (if token = [] then \<lparr> valid = False, errors = [''Token must be a non-empty string''] \<rparr>
      else
        (let errors =
           (if length token < 140 then [''Token too short (minimum 140 characters)'']
            else if length token > 200 then [''Token too long (maximum 200 characters)'']
            else []) @
           (if \<not> only_allowed token then [''Token contains invalid characters''] else []) @
           (if \<not> fcm_format token then [''Token does not match expected FCM format''] else [])
         in \<lparr> valid = (length errors = 0), errors = errors \<rparr>))"
| "validateTokenFormat v = \<lparr> valid = False, errors = [''Token must be a non-empty string''] \<rparr>"

section \<open>The circuit breaker of the Firebase runbook\<close>

text \<open>
  The only circuit breaker of the repository is the class \<open>CircuitBreaker\<close> that
  troubleshooting/runbooks/firebase-issues.md proposes; the batch sender does not use
  it. \<open>lastFailureTime\<close> is \<open>null\<close> until the first failure, and \<open>null\<close> is \<open>0\<close> in
  a subtraction.
\<close>

datatype breaker_state = CLOSED | OPEN | HALF_OPEN

record CircuitBreaker =
  threshold :: int
  timeout :: int
  failureCount :: int
  lastFailureTime :: "int option"
  state :: breaker_state

text \<open>\<open>constructor(threshold = 5, timeout = 60000)\<close>; \<open>None\<close> is an argument left out.\<close>

definition new_CircuitBreaker :: "int option \<Rightarrow> int option \<Rightarrow> CircuitBreaker" where
  "new_CircuitBreaker th tmo =
     \<lparr> threshold = (case th of None \<Rightarrow> 5 | Some t \<Rightarrow> t),
       timeout = (case tmo of None \<Rightarrow> 60000 | Some t \<Rightarrow> t),
       failureCount = 0, lastFailureTime = None, state = CLOSED \<rparr>"

definition onSuccess :: "CircuitBreaker \<Rightarrow> CircuitBreaker" where
  "onSuccess b = b\<lparr> failureCount := 0, state := CLOSED \<rparr>"

definition onFailure :: "CircuitBreaker \<Rightarrow> int \<Rightarrow> CircuitBreaker" where
  "onFailure b now =
     (let b' = b\<lparr> failureCount := failureCount b + 1, lastFailureTime := Some now \<rparr>
      in if failureCount b' \<ge> threshold b' then b'\<lparr> state := OPEN \<rparr> else b')"

text \<open>
  \<open>call(operation)\<close>. The clock is read on entry when the breaker is open
  (\<open>now\<close>) and again in \<open>onFailure\<close> (\<open>later\<close>); \<open>outcome\<close> is what the
  operation settles to when it is invoked. The result is the breaker after the call,
  whether the operation was invoked, and what the call settles to.
\<close>

definition call ::
  "CircuitBreaker \<Rightarrow> int \<Rightarrow> (js_error + 'a) \<Rightarrow> int \<Rightarrow> CircuitBreaker \<times> bool \<times> (js_error + 'a)" where
  "call b now outcome later =
     (if state b = OPEN \<and>
         \<not> (now - (case lastFailureTime b of None \<Rightarrow> 0 | Some t \<Rightarrow> t) > timeout b)
      then (b, False, Inl (PlainError ''Circuit breaker is OPEN''))
      else
        (let b1 = (if state b = OPEN then b\<lparr> state := HALF_OPEN \<rparr> else b)
         in case outcome of
              Inr result \<Rightarrow> (onSuccess b1, True, Inr result)
            | Inl e \<Rightarrow> (onFailure b1 later, True, Inl e)))"

text \<open>
  A sequence of calls, each with its two clock readings and the outcome of its
  operation; the result is the breaker at the end and, for each call, whether the
  operation was invoked and what the call settled to.
\<close>

fun calls ::
  "CircuitBreaker \<Rightarrow> (int \<times> (js_error + 'a) \<times> int) list \<Rightarrow>
   CircuitBreaker \<times> (bool \<times> (js_error + 'a)) list" where
  "calls b [] = (b, [])"
| "calls b ((now, outcome, later) # cs) =
     (case call b now outcome later of
        (b', r) \<Rightarrow> (case calls b' cs of (b'', rs) \<Rightarrow> (b'', r # rs)))"


section \<open>Observations on runs\<close>

text \<open>A notification whose \<open>fcmToken\<close> is a string.\<close>

definition has_string_token :: "notification \<Rightarrow> bool" where
  "has_string_token n = (case fcmToken n of JString t \<Rightarrow> True | _ \<Rightarrow> False)"

text \<open>The number of calls of the provider in a trace, and the waits of the trace in order.\<close>

fun publishes :: "event list \<Rightarrow> nat" where
  "publishes [] = 0"
| "publishes (Publish ps # tr) = Suc (publishes tr)"
| "publishes (Delay d # tr) = publishes tr"

fun delays :: "event list \<Rightarrow> int list" where
  "delays [] = []"
| "delays (Publish ps # tr) = delays tr"
| "delays (Delay d # tr) = d # delays tr"

section \<open>Example inputs\<close>

definition no_options :: options where
  "no_options = \<lparr> opt_snsTopicArn = None, opt_batchSize = None, opt_delayBetweenBatches = None,
                  opt_maxRetries = None, opt_retryDelay = None \<rparr>"

definition default_sender :: sender where
  "default_sender = constructor no_options (Some ''arn:aws:sns:us-east-1:000000000000:push'')"

definition titled :: "js_value \<Rightarrow> notification" where
  "titled tok = \<lparr> fcmToken = tok, title = JString ''Hello'', message = JUndefined,
                  data = JUndefined, batchId = JUndefined \<rparr>"

definition always_rejects :: "error_class \<Rightarrow> nat \<Rightarrow> publish_result" where
  "always_rejects c k = Rejected (ProviderError ''Service Unavailable'' c)"

definition always_resolves :: "nat \<Rightarrow> publish_result" where
  "always_resolves k = Resolved ''a1b2c3''"

definition two_notifications :: "notification list" where
  "two_notifications = [titled (JString ''dGVzdC10b2tlbi0x''), titled (JString ''short'')]"

definition second_fails :: "nat \<Rightarrow> nat \<Rightarrow> publish_result" where
  "second_fails p = (if p = 1 then always_rejects Transient else always_resolves)"

definition twenty_five :: "notification list" where
  "twenty_five = replicate 25 (titled (JString ''dGVzdC10b2tlbi0x''))"

definition five_failures :: "(int \<times> (js_error + unit) \<times> int) list" where
  "five_failures =
     [(1000, Inl (ProviderError ''Service Unavailable'' Transient), 1100),
      (2000, Inl (ProviderError ''Service Unavailable'' Transient), 2100),
      (3000, Inl (ProviderError ''Service Unavailable'' Transient), 3100),
      (4000, Inl (ProviderError ''Service Unavailable'' Transient), 4100),
      (5000, Inl (ProviderError ''Service Unavailable'' Transient), 5100)]"

section \<open>Facts about the model\<close>

subsection \<open>Slices and chunks\<close>

lemma slice_pos:
  "0 \<le> i \<Longrightarrow> 0 < b \<Longrightarrow> slice xs i (i + b) = take (nat b) (drop (nat i) xs)"
  by (auto simp: slice_def js_index_def Let_def min_def nat_add_distrib take_all_iff)

lemma slice_neg: "i < 0 \<Longrightarrow> b < 0 \<Longrightarrow> slice xs i (i + b) = []"
  by (auto simp: slice_def js_index_def Let_def)

lemma js_index_pos: "0 \<le> i \<Longrightarrow> i < int len \<Longrightarrow> js_index len i = nat i"
  by (auto simp: js_index_def)

lemma chunks_Nil: "chunks n [] = []"
  by (simp add: chunks.simps)

lemma chunks_step: "0 < n \<Longrightarrow> xs \<noteq> [] \<Longrightarrow> chunks n xs = take n xs # chunks n (drop n xs)"
  by (subst chunks.simps) simp

lemma concat_chunks: "0 < n \<Longrightarrow> concat (chunks n xs) = xs"
proof (induction n xs rule: chunks.induct)
  case (1 n xs)
  then show ?case by (cases "xs = []") (simp_all add: chunks_Nil chunks_step)
qed

lemma chunks_sizes: "0 < n \<Longrightarrow> b \<in> set (chunks n xs) \<Longrightarrow> 0 < length b \<and> length b \<le> n"
proof (induction n xs rule: chunks.induct)
  case (1 n xs)
  then show ?case by (cases "xs = []") (auto simp: chunks_Nil chunks_step)
qed

lemma chunks_nth:
  "0 < n \<Longrightarrow> k < length (chunks n xs) \<Longrightarrow> chunks n xs ! k = take n (drop (k * n) xs)"
proof (induction n xs arbitrary: k rule: chunks.induct)
  case (1 n xs)
  show ?case
  proof (cases "xs = []")
    case True
    with "1.prems" show ?thesis by (simp add: chunks_Nil)
  next
    case False
    show ?thesis
    proof (cases k)
      case 0
      with False "1.prems" show ?thesis by (simp add: chunks_step)
    next
      case (Suc j)
      with False "1.prems" have "j < length (chunks n (drop n xs))" by (simp add: chunks_step)
      with "1.IH" False "1.prems" have "chunks n (drop n xs) ! j = take n (drop (j * n) (drop n xs))"
        by simp
      with Suc False "1.prems" show ?thesis by (simp add: chunks_step add.commute)
    qed
  qed
qed

lemma chunks_full:
  "0 < n \<Longrightarrow> Suc k < length (chunks n xs) \<Longrightarrow> length (chunks n xs ! k) = n"
proof (induction n xs arbitrary: k rule: chunks.induct)
  case (1 n xs)
  show ?case
  proof (cases "xs = []")
    case True
    with "1.prems" show ?thesis by (simp add: chunks_Nil)
  next
    case False
    then have st: "chunks n xs = take n xs # chunks n (drop n xs)"
      using "1.prems" by (simp add: chunks_step)
    show ?thesis
    proof (cases k)
      case 0
      have "chunks n (drop n xs) \<noteq> []" using "1.prems" st by auto
      then have "drop n xs \<noteq> []" by (auto simp: chunks_Nil)
      then show ?thesis using 0 st by simp
    next
      case (Suc j)
      with st "1.prems" have "Suc j < length (chunks n (drop n xs))" by simp
      with "1.IH" False "1.prems" have "length (chunks n (drop n xs) ! j) = n" by simp
      with Suc st show ?thesis by simp
    qed
  qed
qed

lemma sum_chunks: "0 < n \<Longrightarrow> sum_list (map length (chunks n xs)) = length xs"
proof -
  assume "0 < n"
  then have "length (concat (chunks n xs)) = length xs" by (simp add: concat_chunks)
  then show ?thesis by (simp add: length_concat)
qed

lemma chunks_twenty_five:
  "map length (chunks 10 twenty_five) = [10, 10, 5]"
  by (simp add: twenty_five_def chunks.simps)

subsection \<open>One send\<close>

lemma send_single_string:
  "fcmToken n = JString t \<Longrightarrow>
   \<exists>r. snd (sendSingleNotification s publish n k) = Inr r \<and>
       tokenPrefix r = JString (take 10 t @ ''...'')"
proof (induction s publish n k rule: sendSingleNotification.induct)
  case (1 s publish n retryCount)
  show ?case
  proof (cases "try_send publish n retryCount")
    case (Inr r)
    then have "tokenPrefix r = JString (take 10 t @ ''...'')"
      using "1.prems" by (auto simp: try_send_def split: publish_result.splits)
    with Inr show ?thesis by (subst sendSingleNotification.simps) simp
  next
    case (Inl e)
    show ?thesis
    proof (cases "int retryCount < maxRetries s")
      case True
      from "1.IH"[OF Inl True "1.prems"] obtain r where
        "snd (sendSingleNotification s publish n (Suc retryCount)) = Inr r"
        "tokenPrefix r = JString (take 10 t @ ''...'')" by blast
      with Inl True show ?thesis
        by (subst sendSingleNotification.simps) (auto split: prod.splits)
    next
      case False
      with Inl "1.prems" show ?thesis
        by (subst sendSingleNotification.simps) (simp add: failure_record_def)
    qed
  qed
qed

lemma string_token: "has_string_token n \<Longrightarrow> \<exists>t. fcmToken n = JString t"
  by (cases "fcmToken n") (auto simp: has_string_token_def)

lemma string_tokens: "list_all has_string_token ns \<Longrightarrow> \<forall>n\<in>set ns. \<exists>t. fcmToken n = JString t"
  by (auto simp: list_all_iff dest: string_token)

lemma send_unfold_retry:
  "try_send publish n k = Inl e \<Longrightarrow> int k < maxRetries s \<Longrightarrow>
   sendSingleNotification s publish n k =
     (Publish (params_of s n) # Delay (retryDelay s) # fst (sendSingleNotification s publish n (Suc k)),
      snd (sendSingleNotification s publish n (Suc k)))"
  by (subst sendSingleNotification.simps) (simp split: prod.splits)

lemma send_unfold_last:
  "try_send publish n k = Inl e \<Longrightarrow> \<not> int k < maxRetries s \<Longrightarrow>
   sendSingleNotification s publish n k = ([Publish (params_of s n)], failure_record e n)"
  by (subst sendSingleNotification.simps) simp

lemma send_unfold_ok:
  "try_send publish n k = Inr r \<Longrightarrow>
   sendSingleNotification s publish n k = ([Publish (params_of s n)], Inr r)"
  by (subst sendSingleNotification.simps) simp

lemma retries_bounded:
  "length (delays (fst (sendSingleNotification s publish n k))) \<le> nat (maxRetries s - int k) \<and>
   publishes (fst (sendSingleNotification s publish n k)) =
     Suc (length (delays (fst (sendSingleNotification s publish n k))))"
proof (induction s publish n k rule: sendSingleNotification.induct)
  case (1 s publish n k)
  show ?case
  proof (cases "try_send publish n k")
    case (Inr r)
    then show ?thesis by (simp add: send_unfold_ok)
  next
    case (Inl e)
    show ?thesis
    proof (cases "int k < maxRetries s")
      case True
      with "1.IH"[OF Inl True] Inl show ?thesis
        by (simp add: send_unfold_retry) linarith
    next
      case False
      with Inl show ?thesis by (simp add: send_unfold_last)
    qed
  qed
qed

lemma always_failing:
  "\<forall>j. \<exists>e. publish j = Rejected e \<Longrightarrow>
   length (delays (fst (sendSingleNotification s publish n k))) = nat (maxRetries s - int k) \<and>
   (has_string_token n \<longrightarrow>
      (\<exists>r. snd (sendSingleNotification s publish n k) = Inr r \<and> success r = JBool False))"
proof (induction s publish n k rule: sendSingleNotification.induct)
  case (1 s publish n k)
  from "1.prems" obtain e where e: "publish k = Rejected e" by blast
  then have ts: "try_send publish n k = Inl e" by (simp add: try_send_def)
  show ?case
  proof (cases "int k < maxRetries s")
    case True
    with "1.IH"[OF ts True "1.prems"] ts show ?thesis
      by (simp add: send_unfold_retry)
  next
    case False
    with ts show ?thesis
      by (auto simp: send_unfold_last failure_record_def dest!: string_token)
  qed
qed


lemma result_depends_on_redact:
  "redact (fcmToken n) = redact (fcmToken n') \<Longrightarrow>
   snd (sendSingleNotification s publish n k) = snd (sendSingleNotification s publish n' k)"
proof (induction s publish n k rule: sendSingleNotification.induct)
  case (1 s publish n k)
  have ts: "try_send publish n' k = try_send publish n k"
    by (simp only: try_send_def "1.prems")
  show ?case
  proof (cases "try_send publish n k")
    case (Inr r)
    with ts show ?thesis by (simp add: send_unfold_ok)
  next
    case (Inl e)
    show ?thesis
    proof (cases "int k < maxRetries s")
      case True
      with "1.IH"[OF Inl True "1.prems"] Inl ts show ?thesis by (simp add: send_unfold_retry)
    next
      case False
      with Inl ts "1.prems" show ?thesis by (simp add: send_unfold_last failure_record_def)
    qed
  qed
qed

subsection \<open>The loop of sendBatch\<close>

lemma promise_all_Inr:
  "(\<forall>x\<in>set ps. \<exists>v. x = Inr v) \<Longrightarrow> promise_all ps = Inr (map projr ps)"
  by (induction ps rule: promise_all.induct) auto

lemma map_zip_upt:
  "map (\<lambda>(p, n). f p n) (zip [k ..< k + length (take m (drop k xs))] (take m (drop k xs)))
   = map (\<lambda>p. f p (xs ! p)) [k ..< min (k + m) (length xs)]"
  by (rule nth_equalityI) (auto simp: min_def split: if_splits)

lemma batches_of_append: "batches_of (xs @ ys) = batches_of xs @ batches_of ys"
  by (induction xs rule: batches_of.induct) auto


text \<open>
  With a positive batch size the loop ends, whatever the provider answers: the run
  returns or rejects, and the batches it sliced are the first chunks of the input,
  all of them when it returns.
\<close>

lemma loop_settles:
  assumes bs: "0 < batchSize s"
  shows "0 \<le> i \<Longrightarrow>
    \<exists>log' out. sendBatch_loop s prov ns i res log = Some (log @ log', out)
      \<and> prefix (batches_of log') (chunks (nat (batchSize s)) (drop (nat i) ns))
      \<and> (\<forall>rs. out = Inr rs \<longrightarrow> batches_of log' = chunks (nat (batchSize s)) (drop (nat i) ns))"
proof (induction "length ns - nat i" arbitrary: i res log rule: less_induct)
  case less
  define N where "N = nat (batchSize s)"
  define k where "k = nat i"
  have Npos: "0 < N" using bs by (simp add: N_def)
  show ?case
  proof (cases "i < int (length ns)")
    case False
    then have d: "drop (nat i) ns = []" by auto
    have "sendBatch_loop s prov ns i res log = Some (log @ [], Inr res)"
      using False by (subst sendBatch_loop.simps) simp
    moreover have "batches_of [] = chunks (nat (batchSize s)) (drop (nat i) ns)"
      by (simp add: d chunks_Nil)
    ultimately show ?thesis by (metis prefix_order.order_refl)
  next
    case True
    then have klt: "k < length ns" using less.prems by (simp add: k_def)
    define batch where "batch = take N (drop k ns)"
    define runs where "runs = map (\<lambda>(p, n). sendSingleNotification s (prov p) n 0)
                        (zip [js_index (length ns) i ..< js_index (length ns) i + length batch] batch)"
    have sl: "slice ns i (i + batchSize s) = batch"
      using less.prems bs by (simp add: slice_pos batch_def N_def k_def)
    have kN: "nat (i + batchSize s) = k + N"
      using less.prems bs by (simp add: k_def N_def nat_add_distrib)
    have ch: "chunks N (drop k ns) = batch # chunks N (drop (k + N) ns)"
      using chunks_step[OF Npos, of "drop k ns"] klt by (simp add: batch_def add.commute)
    show ?thesis
    proof (cases "promise_all (map snd runs)")
      case (Inl e)
      have "sendBatch_loop s prov ns i res log = Some (log @ [Batch batch (map fst runs)], Inl e)"
        using True sl Inl by (subst sendBatch_loop.simps) (simp add: Let_def runs_def)
      moreover have "prefix (batches_of [Batch batch (map fst runs)]) (chunks N (drop k ns))"
        by (simp add: ch)
      ultimately show ?thesis unfolding N_def k_def by blast
    next
      case (Inr batchResults)
      define lg where "lg = (if i + batchSize s < int (length ns)
                   then (log @ [Batch batch (map fst runs)]) @ [Wait (delayBetweenBatches s)]
                   else log @ [Batch batch (map fst runs)])"
      have step: "sendBatch_loop s prov ns i res log =
          sendBatch_loop s prov ns (i + batchSize s) (res @ batchResults) lg"
        using True sl Inr
        by (subst sendBatch_loop.simps) (simp add: Let_def runs_def lg_def)
      have dec: "length ns - nat (i + batchSize s) < length ns - nat i"
        using True less.prems bs by linarith
      have nn: "0 \<le> i + batchSize s" using less.prems bs by simp
      from less.hyps[OF dec nn, of "res @ batchResults" lg]
      obtain log'' out where
        L: "sendBatch_loop s prov ns (i + batchSize s) (res @ batchResults) lg = Some (lg @ log'', out)"
        and P: "prefix (batches_of log'') (chunks N (drop (k + N) ns))"
        and B: "\<forall>rs. out = Inr rs \<longrightarrow> batches_of log'' = chunks N (drop (k + N) ns)"
        unfolding N_def kN[unfolded N_def] by blast
      obtain extra where lg_eq: "lg = log @ Batch batch (map fst runs) # extra" and ex: "batches_of extra = []"
        by (cases "i + batchSize s < int (length ns)") (auto simp: lg_def)
      have "sendBatch_loop s prov ns i res log =
          Some (log @ (Batch batch (map fst runs) # extra @ log''), out)"
        using step L by (simp add: lg_eq)
      moreover have "prefix (batches_of (Batch batch (map fst runs) # extra @ log'')) (chunks N (drop k ns))"
        using P ex by (simp add: batches_of_append ch)
      moreover have "\<forall>rs. out = Inr rs \<longrightarrow>
          batches_of (Batch batch (map fst runs) # extra @ log'') = chunks N (drop k ns)"
        using B ex by (simp add: batches_of_append ch)
      ultimately show ?thesis unfolding N_def k_def by blast
    qed
  qed
qed

text \<open>
  When every token is a string no send rejects, and the run returns the result of
  each notification's own send, in the order of the input.
\<close>

lemma loop_string:
  assumes bs: "0 < batchSize s"
    and str: "\<forall>n\<in>set ns. \<exists>t. fcmToken n = JString t"
  shows "0 \<le> i \<Longrightarrow>
    \<exists>log'. sendBatch_loop s prov ns i res log =
        Some (log @ log',
              Inr (res @ map (\<lambda>p. projr (snd (sendSingleNotification s (prov p) (ns ! p) 0)))
                             [nat i ..< length ns]))
      \<and> batches_of log' = chunks (nat (batchSize s)) (drop (nat i) ns)"
proof (induction "length ns - nat i" arbitrary: i res log rule: less_induct)
  case less
  define N where "N = nat (batchSize s)"
  define k where "k = nat i"
  define R where "R = (\<lambda>p. projr (snd (sendSingleNotification s (prov p) (ns ! p) 0)))"
  have Npos: "0 < N" using bs by (simp add: N_def)
  show ?case
  proof (cases "i < int (length ns)")
    case False
    then have "[nat i ..< length ns] = []" "drop (nat i) ns = []" by auto
    with False show ?thesis
      by (subst sendBatch_loop.simps) (simp add: chunks_Nil)
  next
    case True
    then have klt: "k < length ns" using less.prems by (simp add: k_def)
    define batch where "batch = take N (drop k ns)"
    define runs where "runs = map (\<lambda>(p, n). sendSingleNotification s (prov p) n 0)
                        (zip [k ..< k + length batch] batch)"
    have sl: "slice ns i (i + batchSize s) = batch"
      using less.prems bs by (simp add: slice_pos batch_def N_def k_def)
    have ix: "js_index (length ns) i = k"
      using less.prems True by (simp add: js_index_pos k_def)
    have runs_eq: "runs = map (\<lambda>p. sendSingleNotification s (prov p) (ns ! p) 0) [k ..< min (k + N) (length ns)]"
      unfolding runs_def batch_def by (rule map_zip_upt)
    have allInr: "\<forall>x\<in>set (map snd runs). \<exists>v. x = Inr v"
    proof -
      have "\<exists>v. snd (sendSingleNotification s (prov p) (ns ! p) 0) = Inr v" if "p < length ns" for p
      proof -
        from that str obtain t where "fcmToken (ns ! p) = JString t" by (meson nth_mem)
        from send_single_string[OF this] show ?thesis by blast
      qed
      then show ?thesis by (auto simp: runs_eq)
    qed
    have pa: "promise_all (map snd runs) = Inr (map R [k ..< min (k + N) (length ns)])"
      using promise_all_Inr[OF allInr] by (simp add: runs_eq R_def comp_def)
    define lg where "lg = (if i + batchSize s < int (length ns)
                   then (log @ [Batch batch (map fst runs)]) @ [Wait (delayBetweenBatches s)]
                   else log @ [Batch batch (map fst runs)])"
    have step: "sendBatch_loop s prov ns i res log =
        sendBatch_loop s prov ns (i + batchSize s) (res @ map R [k ..< min (k + N) (length ns)]) lg"
      using True sl ix pa
      by (subst sendBatch_loop.simps) (simp add: Let_def runs_def lg_def)
    have dec: "length ns - nat (i + batchSize s) < length ns - nat i"
      using True less.prems bs by linarith
    have nn: "0 \<le> i + batchSize s" using less.prems bs by simp
    from less.hyps[OF dec nn, of "res @ map R [k ..< min (k + N) (length ns)]" lg]
    obtain log'' where
      L: "sendBatch_loop s prov ns (i + batchSize s) (res @ map R [k ..< min (k + N) (length ns)]) lg
          = Some (lg @ log'', Inr ((res @ map R [k ..< min (k + N) (length ns)]) @
               map R [nat (i + batchSize s) ..< length ns]))"
      and B: "batches_of log'' = chunks N (drop (nat (i + batchSize s)) ns)"
      unfolding R_def N_def by blast
    have kN: "nat (i + batchSize s) = k + N"
      using less.prems bs by (simp add: k_def N_def nat_add_distrib)
    have upt: "[k ..< min (k + N) (length ns)] @ [k + N ..< length ns] = [k ..< length ns]"
    proof (cases "k + N \<le> length ns")
      case True
      then obtain d where d: "length ns = (k + N) + d" using le_Suc_ex by blast
      have "[k ..< (k + N) + d] = [k ..< k + N] @ [k + N ..< (k + N) + d]"
        by (rule upt_add_eq_append) simp
      with True d show ?thesis by (simp add: min_def)
    next
      case False
      then show ?thesis by (simp add: min_def)
    qed
    have maps: "map R [k ..< min (k + N) (length ns)] @ map R [k + N ..< length ns] = map R [k ..< length ns]"
      by (simp only: map_append[symmetric] upt)
    obtain extra where lg_eq: "lg = log @ Batch batch (map fst runs) # extra" and "batches_of extra = []"
      by (cases "i + batchSize s < int (length ns)") (auto simp: lg_def)
    have ch: "chunks N (drop k ns) = batch # chunks N (drop (k + N) ns)"
      using chunks_step[OF Npos, of "drop k ns"] klt by (simp add: batch_def add.commute)
    have "sendBatch_loop s prov ns i res log =
        Some (log @ (Batch batch (map fst runs) # extra @ log''), Inr (res @ map R [k ..< length ns]))"
      using step L maps by (simp add: kN lg_eq)
    moreover have "batches_of (Batch batch (map fst runs) # extra @ log'') = chunks N (drop k ns)"
      using B \<open>batches_of extra = []\<close> by (simp add: batches_of_append ch kN)
    ultimately show ?thesis unfolding R_def N_def k_def by blast
  qed
qed

lemma sendBatch_returns:
  assumes "0 < batchSize s" and "\<forall>n\<in>set ns. \<exists>t. fcmToken n = JString t"
  shows "\<exists>log. sendBatch s prov ns =
        Some (log, Inr (map (\<lambda>p. projr (snd (sendSingleNotification s (prov p) (ns ! p) 0)))
                            [0 ..< length ns]))
      \<and> batches_of log = chunks (nat (batchSize s)) ns"
  using loop_string[OF assms, of 0 prov "[]" "[]"] by (simp add: sendBatch_def)

text \<open>With a negative batch size the index only decreases, and the loop never ends.\<close>

lemma loop_diverges_aux:
  assumes "sendBatch_loop s prov ns i res log = Some out"
  shows "\<not> (batchSize s < 0 \<and> i < 0)"
proof (rule sendBatch_loop.raw_induct
    [where P = "\<lambda>s prov ns i res log out. \<not> (batchSize s < 0 \<and> i < 0)", rotated, OF assms])
  fix f s prov ns i res log out
  assume IH: "\<And>s prov ns i res log out. f s prov ns i res log = Some out \<Longrightarrow> \<not> (batchSize s < 0 \<and> i < 0)"
    and body: "(if i < int (length ns) then
        (let batch = slice ns i (i + batchSize s);
             first = js_index (length ns) i;
             runs = map (\<lambda>(p, n). sendSingleNotification s (prov p) n 0)
                        (zip [first ..< first + length batch] batch);
             log' = log @ [Batch batch (map fst runs)]
         in case promise_all (map snd runs) of
              Inl e \<Rightarrow> Some (log', Inl e)
            | Inr batchResults \<Rightarrow>
                f s prov ns (i + batchSize s) (res @ batchResults)
                  (if i + batchSize s < int (length ns)
                   then log' @ [Wait (delayBetweenBatches s)] else log'))
      else Some (log, Inr res)) = Some out"
  show "\<not> (batchSize s < 0 \<and> i < 0)"
  proof
    assume a: "batchSize s < 0 \<and> i < 0"
    then have lt: "i < int (length ns)" by simp
    have sl: "slice ns i (i + batchSize s) = []" using a by (simp add: slice_neg)
    from body lt sl obtain lg where "f s prov ns (i + batchSize s) res lg = Some out"
      by (simp add: Let_def split: if_splits)
    from IH[OF this] a show False by auto
  qed
qed

lemma loop_diverges: "batchSize s < 0 \<Longrightarrow> i < 0 \<Longrightarrow> sendBatch_loop s prov ns i res log = None"
  using loop_diverges_aux[of s prov ns i res log] by (cases "sendBatch_loop s prov ns i res log") auto


subsection \<open>The token validators\<close>

lemma word_char_not_colon: "\<not> word_char (CHR '':'')"
  by (simp add: word_char_def)

lemma fcm_format_iff:
  "fcm_format t \<longleftrightarrow>
     (\<exists>w d rest. w \<noteq> [] \<and> list_all word_char w \<and> word_char d \<and> t = w @ CHR '':'' # d # rest)"
proof
  assume f: "fcm_format t"
  then obtain c d rest where dw: "dropWhile word_char t = c # d # rest" and c: "c = CHR '':''"
    and d: "word_char d" and w: "takeWhile word_char t \<noteq> []"
    by (auto simp: fcm_format_def split: list.splits)
  have "t = takeWhile word_char t @ dropWhile word_char t" by simp
  with dw c have "t = takeWhile word_char t @ CHR '':'' # d # rest" by simp
  moreover have "list_all word_char (takeWhile word_char t)"
    by (simp add: list_all_iff) (meson set_takeWhileD)
  ultimately show "\<exists>w d rest. w \<noteq> [] \<and> list_all word_char w \<and> word_char d \<and> t = w @ CHR '':'' # d # rest"
    using w d by blast
next
  assume "\<exists>w d rest. w \<noteq> [] \<and> list_all word_char w \<and> word_char d \<and> t = w @ CHR '':'' # d # rest"
  then obtain w d rest where w: "w \<noteq> []" "list_all word_char w" and d: "word_char d"
    and t: "t = w @ CHR '':'' # d # rest" by blast
  have tw: "takeWhile word_char t = w"
    using w(2) t word_char_not_colon by (simp add: list_all_iff takeWhile_append2)
  have dw: "dropWhile word_char t = CHR '':'' # d # rest"
    using w(2) t word_char_not_colon by (simp add: list_all_iff dropWhile_append2)
  show "fcm_format t" using tw dw w(1) d by (simp add: fcm_format_def)
qed

subsection \<open>The circuit breaker\<close>

lemma call_closed_failure:
  "state b = CLOSED \<Longrightarrow>
   call b now (Inl e) later =
     ((if failureCount b + 1 \<ge> threshold b
       then b\<lparr> failureCount := failureCount b + 1, lastFailureTime := Some later, state := OPEN \<rparr>
       else b\<lparr> failureCount := failureCount b + 1, lastFailureTime := Some later \<rparr>),
      True, Inl e)"
  by (simp add: call_def onFailure_def Let_def)

lemma calls_Cons:
  "call b now outcome later = (b', r) \<Longrightarrow>
   calls b ((now, outcome, later) # cs) = (fst (calls b' cs), r # snd (calls b' cs))"
  by (simp split: prod.splits)

lemma failing_calls_open:
  "state b = CLOSED \<Longrightarrow> failureCount b + int (length cs) = threshold b \<Longrightarrow> cs \<noteq> [] \<Longrightarrow>
   list_all (\<lambda>c. isl (fst (snd c))) cs \<Longrightarrow>
   state (fst (calls b cs)) = OPEN \<and>
   lastFailureTime (fst (calls b cs)) = Some (snd (snd (last cs))) \<and>
   timeout (fst (calls b cs)) = timeout b \<and>
   list_all fst (snd (calls b cs))"
proof (induction cs arbitrary: b)
  case Nil
  then show ?case by simp
next
  case (Cons c cs)
  obtain now outcome later where c: "c = (now, outcome, later)" by (cases c) auto
  with Cons.prems(4) obtain e where o: "outcome = Inl e" by (cases outcome) auto
  show ?case
  proof (cases "cs = []")
    case True
    have "call b now outcome later =
        (b\<lparr> failureCount := failureCount b + 1, lastFailureTime := Some later, state := OPEN \<rparr>,
         True, outcome)"
      using Cons.prems(1,2) True o by (simp add: call_closed_failure)
    from calls_Cons[OF this, of "[]"] True c show ?thesis by simp
  next
    case False
    let ?b' = "b\<lparr> failureCount := failureCount b + 1, lastFailureTime := Some later \<rparr>"
    have lt: "\<not> failureCount b + 1 \<ge> threshold b"
      using Cons.prems(2) False by (cases cs) auto
    have step: "call b now outcome later = (?b', True, outcome)"
      using Cons.prems(1) lt o by (simp add: call_closed_failure)
    have "state ?b' = CLOSED" "failureCount ?b' + int (length cs) = threshold ?b'"
      "list_all (\<lambda>c. isl (fst (snd c))) cs"
      using Cons.prems by auto
    from Cons.IH[OF this(1,2) False this(3)] calls_Cons[OF step, of cs] c False show ?thesis
      by simp
  qed
qed

section \<open>The delivery report\<close>

text \<open>
  C1, as the code has it. When the batch size is positive and every notification
  carries a string \<open>fcmToken\<close>, \<open>sendBatch\<close> returns, whatever the provider answers
  (also when it rejects every publish): the results have one entry for each
  notification of the input, in the order of the input, and the entry at position
  \<open>p\<close> is the record that the send of the notification at position \<open>p\<close> returned.
\<close>

theorem sendBatch_report_complete:
  assumes "0 < batchSize s" and "list_all has_string_token ns"
  shows "\<exists>log rs. sendBatch s provider ns = Some (log, Inr rs) \<and> length rs = length ns \<and>
           (\<forall>p<length ns. snd (sendSingleNotification s (provider p) (ns ! p) 0) = Inr (rs ! p))"
proof -
  have str: "\<forall>n\<in>set ns. \<exists>t. fcmToken n = JString t" using assms(2) by (rule string_tokens)
  from sendBatch_returns[OF assms(1) str, of provider] obtain log where
    L: "sendBatch s provider ns =
        Some (log, Inr (map (\<lambda>p. projr (snd (sendSingleNotification s (provider p) (ns ! p) 0)))
                            [0 ..< length ns]))" by blast
  have "snd (sendSingleNotification s (provider p) (ns ! p) 0) =
        Inr (projr (snd (sendSingleNotification s (provider p) (ns ! p) 0)))" if "p < length ns" for p
  proof -
    from that str obtain t where "fcmToken (ns ! p) = JString t" by (meson nth_mem)
    from send_single_string[OF this, of s "provider p" 0] show ?thesis by auto
  qed
  with L show ?thesis by simp
qed

text \<open>
  An instance: the default sender, two notifications, and a provider that rejects
  every publish.
\<close>

theorem sendBatch_report_complete_witness:
  "0 < batchSize default_sender \<and> list_all has_string_token two_notifications \<and>
   (\<exists>log rs. sendBatch default_sender (\<lambda>p. always_rejects Transient) two_notifications
                = Some (log, Inr rs) \<and> length rs = 2)"
proof -
  have h1: "0 < batchSize default_sender"
    by (simp add: default_sender_def constructor_def no_options_def)
  have h2: "list_all has_string_token two_notifications"
    by (simp add: two_notifications_def titled_def has_string_token_def)
  from sendBatch_report_complete[OF h1 h2, of "\<lambda>p. always_rejects Transient"] h1 h2
  show ?thesis by (auto simp: two_notifications_def)
qed

text \<open>
  C1 as the specification states it fails. A notification without \<open>fcmToken\<close>
  makes the \<open>catch\<close> block itself throw (after the publish succeeded four times),
  and \<open>sendBatch\<close> rejects instead of returning results; with a negative batch size
  the call never returns.
\<close>

theorem sendBatch_report_counterexample:
  "map_option snd (sendBatch default_sender (\<lambda>p. always_resolves) [titled JUndefined])
     = Some (Inl (TypeError ''Cannot read properties of undefined'')) \<and>
   sendBatch (constructor (no_options\<lparr>opt_batchSize := Some (- 1)\<rparr>) None) (\<lambda>p. always_resolves)
       [titled (JString ''dGVzdC10b2tlbi0x'')] = None"
proof
  show "map_option snd (sendBatch default_sender (\<lambda>p. always_resolves) [titled JUndefined])
     = Some (Inl (TypeError ''Cannot read properties of undefined''))"
    unfolding sendBatch_def
    by (subst sendBatch_loop.simps)
       (simp add: default_sender_def constructor_def no_options_def titled_def slice_def
          js_index_def sendSingleNotification.simps try_send_def failure_record_def
          always_resolves_def Let_def)
  show "sendBatch (constructor (no_options\<lparr>opt_batchSize := Some (- 1)\<rparr>) None) (\<lambda>p. always_resolves)
       [titled (JString ''dGVzdC10b2tlbi0x'')] = None"
    unfolding sendBatch_def
    by (subst sendBatch_loop.simps)
       (simp add: constructor_def no_options_def slice_def js_index_def Let_def loop_diverges)
qed

text \<open>
  The validation of the command line stops a notification without \<open>fcmToken\<close>
  before \<open>sendBatch\<close> runs; a numeric \<open>fcmToken\<close> passes it, and \<open>sendBatch\<close>
  rejects all the same.
\<close>

lemma validateNotification_guard:
  "validateNotification (titled JUndefined) = [''Missing fcmToken''] \<and>
   validateNotification (titled (JNumber 12345)) = [] \<and>
   map_option snd (sendBatch default_sender (\<lambda>p. always_resolves) [titled (JNumber 12345)])
     = Some (Inl (TypeError ''notification.fcmToken.substring is not a function''))"
proof -
  have "map_option snd (sendBatch default_sender (\<lambda>p. always_resolves) [titled (JNumber 12345)])
     = Some (Inl (TypeError ''notification.fcmToken.substring is not a function''))"
    unfolding sendBatch_def
    by (subst sendBatch_loop.simps)
       (simp add: default_sender_def constructor_def no_options_def titled_def slice_def
          js_index_def sendSingleNotification.simps try_send_def failure_record_def
          always_resolves_def Let_def)
  then show ?thesis by (simp add: validateNotification_def titled_def)
qed

section \<open>Batch planning\<close>

text \<open>
  C2, as the specification states it, fails. The first of 25 notifications has no
  \<open>fcmToken\<close> (or a numeric one): its send rejects, \<open>Promise.all\<close> rejects with
  it, and \<open>sendBatch\<close> leaves the loop after the first batch. The sizes of the
  batches sum to 10, not to 25.
\<close>

theorem sendBatch_chunking_counterexample:
  "map_option (map_prod (\<lambda>log. map length (batches_of log)) isl)
     (sendBatch default_sender (\<lambda>p. always_resolves)
        (titled JUndefined # replicate 24 (titled (JString ''dGVzdC10b2tlbi0x''))))
     = Some ([10], True) \<and>
   map_option (map_prod (\<lambda>log. map length (batches_of log)) isl)
     (sendBatch default_sender (\<lambda>p. always_resolves)
        (titled (JNumber 7) # replicate 24 (titled (JString ''dGVzdC10b2tlbi0x''))))
     = Some ([10], True)"
  by code_simp

text \<open>
  C2, as the code has it. With a positive batch size \<open>N\<close> and a list of
  notifications whose \<open>fcmToken\<close> is a string, \<open>sendBatch\<close> returns, and the batches
  it slices are the consecutive slices of the input in the order of the input: batch
  \<open>k\<close> is \<open>take N (drop (k * N) ns)\<close>, every batch is not empty and has at most
  \<open>N\<close> elements, every batch but the last has exactly \<open>N\<close>, the concatenation of
  the batches is the input, and their sizes sum to its length. The batches are the
  chunking of the specification, which depends on the input and on \<open>N\<close> only.
\<close>

theorem sendBatch_chunking:
  assumes "0 < batchSize s" and "list_all has_string_token ns"
  shows "\<exists>log rs. sendBatch s provider ns = Some (log, Inr rs) \<and>
     batches_of log = chunks (nat (batchSize s)) ns \<and>
     (\<forall>k<length (batches_of log).
        batches_of log ! k = take (nat (batchSize s)) (drop (k * nat (batchSize s)) ns)) \<and>
     (\<forall>b\<in>set (batches_of log). 0 < length b \<and> length b \<le> nat (batchSize s)) \<and>
     (\<forall>k. Suc k < length (batches_of log) \<longrightarrow> length (batches_of log ! k) = nat (batchSize s)) \<and>
     concat (batches_of log) = ns \<and>
     sum_list (map length (batches_of log)) = length ns"
proof -
  define N where "N = nat (batchSize s)"
  have Npos: "0 < N" using assms(1) by (simp add: N_def)
  have str: "\<forall>n\<in>set ns. \<exists>t. fcmToken n = JString t" using assms(2) by (rule string_tokens)
  from sendBatch_returns[OF assms(1) str, of provider] obtain log rs where
    S: "sendBatch s provider ns = Some (log, Inr rs)"
    and B: "batches_of log = chunks N ns"
    unfolding N_def by blast
  have nth: "\<forall>k<length (batches_of log). batches_of log ! k = take N (drop (k * N) ns)"
    using B Npos by (simp add: chunks_nth)
  have sz: "\<forall>b\<in>set (batches_of log). 0 < length b \<and> length b \<le> N"
    using B chunks_sizes[OF Npos] by auto
  have full: "\<forall>k. Suc k < length (batches_of log) \<longrightarrow> length (batches_of log ! k) = N"
    using B Npos by (simp add: chunks_full)
  have cc: "concat (batches_of log) = ns" using B Npos by (simp add: concat_chunks)
  have sm: "sum_list (map length (batches_of log)) = length ns"
    using B Npos by (simp add: sum_chunks)
  from S B nth sz full cc sm show ?thesis unfolding N_def by blast
qed

text \<open>
  The scenario of the specification: 25 notifications and the default batch size 10
  give three batches, of 10, 10 and 5.
\<close>

theorem sendBatch_chunking_witness:
  "0 < batchSize default_sender \<and> list_all has_string_token twenty_five \<and>
   (\<exists>log rs. sendBatch default_sender (\<lambda>p. always_resolves) twenty_five = Some (log, Inr rs) \<and>
      map length (batches_of log) = [10, 10, 5] \<and> concat (batches_of log) = twenty_five)"
proof -
  have h1: "0 < batchSize default_sender"
    by (simp add: default_sender_def constructor_def no_options_def)
  have h2: "list_all has_string_token twenty_five"
    by (simp add: twenty_five_def titled_def has_string_token_def list_all_iff)
  have N: "nat (batchSize default_sender) = 10"
    by (simp add: default_sender_def constructor_def no_options_def)
  from sendBatch_chunking[OF h1 h2, of "\<lambda>p. always_resolves"] obtain log rs where
    "sendBatch default_sender (\<lambda>p. always_resolves) twenty_five = Some (log, Inr rs)"
    "batches_of log = chunks (nat (batchSize default_sender)) twenty_five"
    "concat (batches_of log) = twenty_five"
    by blast
  with h1 h2 show ?thesis by (auto simp: N chunks_twenty_five)
qed

section \<open>Retries\<close>

text \<open>
  C3, as the specification states it, fails. Every publish is rejected, and the
  second notification has no \<open>fcmToken\<close> (or a numeric one): after its three
  retries the final \<open>return\<close> of the \<open>catch\<close> block throws, \<open>sendBatch\<close>
  rejects, and no notification has a failure record. And a \<open>maxRetries\<close> option of
  0 is replaced by 3: the send is retried three times, not zero times.
\<close>

theorem retry_bound_counterexample:
  "map_option snd (sendBatch default_sender (\<lambda>p. always_rejects Transient)
       [titled (JString ''dGVzdC10b2tlbi0x''), titled JUndefined])
     = Some (Inl (TypeError ''Cannot read properties of undefined'')) \<and>
   map_option snd (sendBatch default_sender (\<lambda>p. always_rejects Transient)
       [titled (JString ''dGVzdC10b2tlbi0x''), titled (JNumber 12345)])
     = Some (Inl (TypeError ''notification.fcmToken.substring is not a function'')) \<and>
   delays (fst (sendSingleNotification default_sender (always_rejects Transient)
       (titled (JNumber 12345)) 0)) = [2000, 2000, 2000] \<and>
   maxRetries (constructor (no_options\<lparr>opt_maxRetries := Some 0\<rparr>) None) = 3 \<and>
   length (delays (fst (sendSingleNotification
       (constructor (no_options\<lparr>opt_maxRetries := Some 0\<rparr>) None)
       (always_rejects Transient) (titled (JString ''dGVzdC10b2tlbi0x'')) 0))) = 3"
  by code_simp

text \<open>
  C3, as the code has it. The bound is the field \<open>maxRetries\<close> of the sender, which
  the constructor sets to the option, or to 3 when the option is absent or 0. With a
  positive batch size and notifications whose \<open>fcmToken\<close> is a string, a
  notification whose every publish is rejected is retried \<open>maxRetries\<close> times (not
  at all when \<open>maxRetries\<close> is negative): the provider is called \<open>maxRetries + 1\<close>
  times, with one wait before each retry, and a send started at \<open>retryCount = k\<close>
  makes \<open>maxRetries - k\<close> retries, the measure of the recursion. Then the send
  returns a failure record, which is the entry of the notification in the results of
  \<open>sendBatch\<close>, a list with one entry for each notification.
\<close>

theorem retry_bound:
  assumes "0 < batchSize s" and "list_all has_string_token ns" and "p < length ns"
    and "\<forall>k. \<exists>e. provider p k = Rejected e"
  shows "\<exists>log rs tr. sendBatch s provider ns = Some (log, Inr rs) \<and> length rs = length ns \<and>
           sendSingleNotification s (provider p) (ns ! p) 0 = (tr, Inr (rs ! p)) \<and>
           success (rs ! p) = JBool False \<and>
           length (delays tr) = nat (maxRetries s) \<and>
           publishes tr = Suc (nat (maxRetries s)) \<and>
           int (length (delays tr)) \<le> max 0 (maxRetries s) \<and>
           (\<forall>k. length (delays (fst (sendSingleNotification s (provider p) (ns ! p) k)))
                  = nat (maxRetries s - int k)) \<and>
           maxRetries (constructor opts env) =
             (case opt_maxRetries opts of None \<Rightarrow> 3 | Some m \<Rightarrow> if m = 0 then 3 else m)"
proof -
  have cons: "maxRetries (constructor opts env) =
             (case opt_maxRetries opts of None \<Rightarrow> 3 | Some m \<Rightarrow> if m = 0 then 3 else m)"
    by (simp add: constructor_def split: option.splits)
  let ?run = "sendSingleNotification s (provider p) (ns ! p) 0"
  have str: "\<forall>n\<in>set ns. \<exists>t. fcmToken n = JString t" using assms(2) by (rule string_tokens)
  from sendBatch_returns[OF assms(1) str, of provider] obtain log where
    L: "sendBatch s provider ns =
        Some (log, Inr (map (\<lambda>p. projr (snd (sendSingleNotification s (provider p) (ns ! p) 0)))
                            [0 ..< length ns]))" by blast
  have tok: "has_string_token (ns ! p)" using assms(2,3) by (simp add: list_all_length)
  from always_failing[OF assms(4), of s "ns ! p" 0] tok obtain r where
    d: "length (delays (fst ?run)) = nat (maxRetries s)"
    and r: "snd ?run = Inr r" "success r = JBool False" by auto
  have all: "\<forall>k. length (delays (fst (sendSingleNotification s (provider p) (ns ! p) k)))
                  = nat (maxRetries s - int k)"
    using always_failing[OF assms(4), of s "ns ! p"] by blast
  have pb: "publishes (fst ?run) = Suc (nat (maxRetries s))"
    using retries_bounded[of s "provider p" "ns ! p" 0] d by simp
  let ?rs = "map (\<lambda>p. projr (snd (sendSingleNotification s (provider p) (ns ! p) 0))) [0 ..< length ns]"
  have "?rs ! p = r" using assms(3) r by simp
  then have "?run = (fst ?run, Inr (?rs ! p))" using r by (simp add: prod_eq_iff)
  with L d pb r all cons \<open>?rs ! p = r\<close> show ?thesis
    by (intro exI[of _ log] exI[of _ ?rs] exI[of _ "fst ?run"]) auto
qed

theorem retry_bound_witness:
  "0 < batchSize default_sender \<and> list_all has_string_token two_notifications \<and>
   (1::nat) < length two_notifications \<and> (\<forall>k. \<exists>e. second_fails 1 k = Rejected e) \<and>
   (\<exists>log rs tr. sendBatch default_sender second_fails two_notifications = Some (log, Inr rs) \<and>
      length rs = 2 \<and>
      sendSingleNotification default_sender (second_fails 1) (two_notifications ! 1) 0
        = (tr, Inr (rs ! 1)) \<and>
      success (rs ! 1) = JBool False \<and> length (delays tr) = 3 \<and> publishes tr = 4)"
proof -
  have h1: "0 < batchSize default_sender"
    by (simp add: default_sender_def constructor_def no_options_def)
  have h2: "list_all has_string_token two_notifications"
    by (simp add: two_notifications_def titled_def has_string_token_def)
  have h3: "(1::nat) < length two_notifications"
    by (simp add: two_notifications_def)
  have h4: "\<forall>k. \<exists>e. second_fails 1 k = Rejected e"
    by (simp add: second_fails_def always_rejects_def)
  have m: "maxRetries default_sender = 3"
    by (simp add: default_sender_def constructor_def no_options_def)
  from retry_bound[of default_sender two_notifications 1 second_fails, OF h1 h2 h3 h4]
  obtain log rs tr where
    "sendBatch default_sender second_fails two_notifications = Some (log, Inr rs)"
    "length rs = length two_notifications"
    "sendSingleNotification default_sender (second_fails 1) (two_notifications ! 1) 0
       = (tr, Inr (rs ! 1))"
    "success (rs ! 1) = JBool False"
    "length (delays tr) = nat (maxRetries default_sender)"
    "publishes tr = Suc (nat (maxRetries default_sender))"
    by blast
  with h1 h2 h3 h4 m show ?thesis
    by (auto simp: two_notifications_def)
qed


text \<open>
  C4, as the specification states it, fails: the sender does not classify errors, and a
  publish rejected with a permanent error is dispatched again, four times in all with
  the default \<open>maxRetries = 3\<close>.
\<close>

theorem permanent_failure_retried_counterexample:
  "publishes (fst (sendSingleNotification default_sender (always_rejects InvalidRecipient)
                    (titled (JString ''dGVzdC10b2tlbi0x'')) 0)) = 4 \<and>
   publishes (fst (sendSingleNotification default_sender (always_rejects RecipientMoved)
                    (titled (JString ''dGVzdC10b2tlbi0x'')) 0)) = 4"
  by (simp add: sendSingleNotification.simps try_send_def always_rejects_def default_sender_def
        constructor_def no_options_def)

text \<open>
  C4, as the code has it. Whatever the error of a rejected publish, and so whatever
  its class, an attempt with \<open>retryCount < maxRetries\<close> is followed by a wait of
  \<open>retryDelay\<close> and by another call of the provider.
\<close>

theorem retry_ignores_error_class:
  assumes "publish k = Rejected e" and "int k < maxRetries s"
  shows "\<exists>tr. fst (sendSingleNotification s publish n k) =
           Publish (params_of s n) # Delay (retryDelay s) # Publish (params_of s n) # tr"
proof -
  from assms(1) have ts: "try_send publish n k = Inl e" by (simp add: try_send_def)
  have "\<exists>tr. fst (sendSingleNotification s publish n (Suc k)) = Publish (params_of s n) # tr"
    by (subst sendSingleNotification.simps) (auto split: sum.splits prod.splits)
  with send_unfold_retry[OF ts assms(2)] show ?thesis by auto
qed

theorem retry_ignores_error_class_witness:
  "always_rejects InvalidRecipient 0 = Rejected (ProviderError ''Service Unavailable'' InvalidRecipient) \<and>
   int 0 < maxRetries default_sender \<and>
   (\<exists>tr. fst (sendSingleNotification default_sender (always_rejects InvalidRecipient)
                 (titled (JString ''dGVzdC10b2tlbi0x'')) 0) =
      Publish (params_of default_sender (titled (JString ''dGVzdC10b2tlbi0x''))) #
      Delay 2000 #
      Publish (params_of default_sender (titled (JString ''dGVzdC10b2tlbi0x''))) # tr)"
proof -
  have h1: "always_rejects InvalidRecipient 0 = Rejected (ProviderError ''Service Unavailable'' InvalidRecipient)"
    by (simp add: always_rejects_def)
  have h2: "int 0 < maxRetries default_sender"
    by (simp add: default_sender_def constructor_def no_options_def)
  have d: "retryDelay default_sender = 2000"
    by (simp add: default_sender_def constructor_def no_options_def)
  from retry_ignores_error_class[where publish = "always_rejects InvalidRecipient" and k = 0
      and s = default_sender and n = "titled (JString ''dGVzdC10b2tlbi0x'')", OF h1 h2] h1 h2 d
  show ?thesis by simp
qed

text \<open>
  C5, as the specification states it, fails: the waits before the three retries of the
  default sender are 2000, 2000 and 2000 milliseconds, so the wait before the second
  retry is not longer than the wait before the first.
\<close>

theorem backoff_counterexample:
  "delays (fst (sendSingleNotification default_sender (always_rejects Transient)
                  (titled (JString ''dGVzdC10b2tlbi0x'')) 0)) = [2000, 2000, 2000] \<and>
   \<not> (delays (fst (sendSingleNotification default_sender (always_rejects Transient)
                  (titled (JString ''dGVzdC10b2tlbi0x'')) 0)) ! 0
        < delays (fst (sendSingleNotification default_sender (always_rejects Transient)
                  (titled (JString ''dGVzdC10b2tlbi0x'')) 0)) ! 1)"
  by (simp add: sendSingleNotification.simps try_send_def always_rejects_def default_sender_def
        constructor_def no_options_def)

text \<open>
  C5, as the code has it. The wait before every retry is the constant
  \<open>retryDelay\<close> of the sender (2000 when the option is absent), whatever the number
  of the retry: there is no growth, no cap and no jitter.
\<close>

theorem retry_delay_constant:
  "delays (fst (sendSingleNotification s publish n k)) =
     replicate (length (delays (fst (sendSingleNotification s publish n k)))) (retryDelay s)"
proof (induction s publish n k rule: sendSingleNotification.induct)
  case (1 s publish n k)
  show ?case
  proof (cases "try_send publish n k")
    case (Inr r)
    then show ?thesis by (simp add: send_unfold_ok)
  next
    case (Inl e)
    show ?thesis
    proof (cases "int k < maxRetries s")
      case True
      with "1.IH"[OF Inl True] Inl show ?thesis by (simp add: send_unfold_retry)
    next
      case False
      with Inl show ?thesis by (simp add: send_unfold_last)
    qed
  qed
qed


theorem retry_delay_constant_witness:
  "retryDelay (constructor no_options None) = 2000 \<and>
   delays (fst (sendSingleNotification (constructor no_options None) (always_rejects Transient)
                  (titled (JString ''dGVzdC10b2tlbi0x'')) 0))
     = replicate 3 (retryDelay (constructor no_options None))"
proof -
  have l: "length (delays (fst (sendSingleNotification (constructor no_options None)
             (always_rejects Transient) (titled (JString ''dGVzdC10b2tlbi0x'')) 0))) = 3"
    by (simp add: sendSingleNotification.simps try_send_def always_rejects_def
          constructor_def no_options_def)
  have d: "retryDelay (constructor no_options None) = 2000"
    by (simp add: constructor_def no_options_def)
  from retry_delay_constant[of "constructor no_options None" "always_rejects Transient"
         "titled (JString ''dGVzdC10b2tlbi0x'')" 0] l d
  show ?thesis by simp
qed

section \<open>The summary\<close>

text \<open>
  C9. In the report of \<open>generateSummary\<close>, \<open>total\<close> is the number of results, and
  \<open>successful\<close> and \<open>failed\<close> count the results whose \<open>success\<close> is truthy and
  falsy: every result is counted once, and the two counts sum to \<open>total\<close>.
\<close>

theorem generateSummary_partition:
  "total (summary (generateSummary results)) = length results \<and>
   successful (summary (generateSummary results)) + failed (summary (generateSummary results))
     = total (summary (generateSummary results)) \<and>
   successful (summary (generateSummary results)) = length (filter (\<lambda>r. truthy (success r)) results) \<and>
   failed (summary (generateSummary results)) = length (filter (\<lambda>r. \<not> truthy (success r)) results)"
  by (simp add: generateSummary_def Let_def sum_length_filter_compl)

section \<open>The token in the result\<close>

text \<open>
  C10. For a notification whose \<open>fcmToken\<close> is a string of at least 10 characters,
  a send returns a record (a success or a failure) whose \<open>fcmToken\<close> is the first 10
  characters of the token followed by three dots. The whole record is the same for
  any other token with the same first 10 characters, the answers of the provider
  being the same: nothing of the rest of the token reaches the result.
\<close>

theorem token_redaction:
  assumes "fcmToken n = JString t" and "10 \<le> length t"
  shows "(\<exists>r. snd (sendSingleNotification s publish n k) = Inr r \<and>
              tokenPrefix r = JString (take 10 t @ ''...'') \<and> length (take 10 t) = 10) \<and>
         (\<forall>n' t'. fcmToken n' = JString t' \<and> take 10 t' = take 10 t \<longrightarrow>
              snd (sendSingleNotification s publish n' k) = snd (sendSingleNotification s publish n k))"
proof
  from send_single_string[OF assms(1), of s publish k] assms(2)
  show "\<exists>r. snd (sendSingleNotification s publish n k) = Inr r \<and>
              tokenPrefix r = JString (take 10 t @ ''...'') \<and> length (take 10 t) = 10"
    by auto
  show "\<forall>n' t'. fcmToken n' = JString t' \<and> take 10 t' = take 10 t \<longrightarrow>
              snd (sendSingleNotification s publish n' k) = snd (sendSingleNotification s publish n k)"
  proof (intro allI impI)
    fix n' :: notification and t' assume a: "fcmToken n' = JString t' \<and> take 10 t' = take 10 t"
    then have "redact (fcmToken n') = redact (fcmToken n)" using assms(1) by simp
    then show "snd (sendSingleNotification s publish n' k) = snd (sendSingleNotification s publish n k)"
      by (rule result_depends_on_redact)
  qed
qed

theorem token_redaction_witness:
  "fcmToken (titled (JString ''dGVzdC10b2tlbi0x'')) = JString ''dGVzdC10b2tlbi0x'' \<and>
   10 \<le> length ''dGVzdC10b2tlbi0x'' \<and>
   (\<exists>r. snd (sendSingleNotification default_sender (always_rejects Transient)
                (titled (JString ''dGVzdC10b2tlbi0x'')) 0) = Inr r \<and>
        tokenPrefix r = JString ''dGVzdC10b2...'') \<and>
   snd (sendSingleNotification default_sender (always_rejects Transient)
          (titled (JString ''dGVzdC10b2-another-token'')) 0)
     = snd (sendSingleNotification default_sender (always_rejects Transient)
          (titled (JString ''dGVzdC10b2tlbi0x'')) 0)"
proof -
  have h1: "fcmToken (titled (JString ''dGVzdC10b2tlbi0x'')) = JString ''dGVzdC10b2tlbi0x''"
    by (simp add: titled_def)
  have h2: "10 \<le> length ''dGVzdC10b2tlbi0x''" by simp
  have h3: "fcmToken (titled (JString ''dGVzdC10b2-another-token'')) = JString ''dGVzdC10b2-another-token'' \<and>
            take 10 ''dGVzdC10b2-another-token'' = take 10 ''dGVzdC10b2tlbi0x''"
    by (simp add: titled_def)
  have t: "take 10 ''dGVzdC10b2tlbi0x'' @ ''...'' = ''dGVzdC10b2...''" by simp
  from token_redaction[OF h1 h2, of default_sender "always_rejects Transient" 0]
  obtain r where r: "snd (sendSingleNotification default_sender (always_rejects Transient)
                (titled (JString ''dGVzdC10b2tlbi0x'')) 0) = Inr r"
      "tokenPrefix r = JString (take 10 ''dGVzdC10b2tlbi0x'' @ ''...'')"
    and e: "\<forall>n' t'. fcmToken n' = JString t' \<and> take 10 t' = take 10 ''dGVzdC10b2tlbi0x'' \<longrightarrow>
              snd (sendSingleNotification default_sender (always_rejects Transient) n' 0)
              = snd (sendSingleNotification default_sender (always_rejects Transient)
                       (titled (JString ''dGVzdC10b2tlbi0x'')) 0)"
    by blast
  from e h3 have "snd (sendSingleNotification default_sender (always_rejects Transient)
          (titled (JString ''dGVzdC10b2-another-token'')) 0)
     = snd (sendSingleNotification default_sender (always_rejects Transient)
          (titled (JString ''dGVzdC10b2tlbi0x'')) 0)" by blast
  with r t h1 h2 show ?thesis by (simp only: simp_thms) blast
qed



section \<open>The batch size\<close>

text \<open>
  C8, as the specification states it, fails. A batch size of 0 is not an error: the
  constructor takes the default 10, and \<open>sendBatch\<close> returns a result for the
  notification; with a batch size of -5 and no notification, \<open>sendBatch\<close> returns the
  empty results.
\<close>

theorem configuration_error_counterexample:
  "batchSize (constructor (no_options\<lparr>opt_batchSize := Some 0\<rparr>) None) = 10 \<and>
   map_option snd (sendBatch (constructor (no_options\<lparr>opt_batchSize := Some 0\<rparr>) None)
       (\<lambda>p. always_resolves) [titled (JString ''dGVzdC10b2tlbi0x'')])
     = Some (Inr [\<lparr> success = JBool True, messageId = JString ''a1b2c3'', error = JUndefined,
                     tokenPrefix = JString ''dGVzdC10b2...'' \<rparr>]) \<and>
   sendBatch (constructor (no_options\<lparr>opt_batchSize := Some (- 5)\<rparr>) None)
       (\<lambda>p. always_resolves) [] = Some ([], Inr [])"
proof (intro conjI)
  show "batchSize (constructor (no_options\<lparr>opt_batchSize := Some 0\<rparr>) None) = 10"
    by (simp add: constructor_def)
  show "map_option snd (sendBatch (constructor (no_options\<lparr>opt_batchSize := Some 0\<rparr>) None)
       (\<lambda>p. always_resolves) [titled (JString ''dGVzdC10b2tlbi0x'')])
     = Some (Inr [\<lparr> success = JBool True, messageId = JString ''a1b2c3'', error = JUndefined,
                     tokenPrefix = JString ''dGVzdC10b2...'' \<rparr>])"
    unfolding sendBatch_def
    apply (subst sendBatch_loop.simps)
    apply (simp add: constructor_def no_options_def titled_def slice_def js_index_def
          sendSingleNotification.simps try_send_def always_resolves_def Let_def)
    apply (subst sendBatch_loop.simps)
    apply simp
    done
  show "sendBatch (constructor (no_options\<lparr>opt_batchSize := Some (- 5)\<rparr>) None)
       (\<lambda>p. always_resolves) [] = Some ([], Inr [])"
    unfolding sendBatch_def by (subst sendBatch_loop.simps) simp
qed

text \<open>
  C8, as the code has it. A batch size option that is 0 or absent is not an error:
  the constructor replaces it by the default 10. \<open>sendBatch\<close> then ends for every
  list of notifications, and the batches it sends are the first of the consecutive
  chunks of 10 of the list; when every \<open>fcmToken\<close> is a string it sends all the
  chunks and returns one result for each notification.
\<close>

theorem batchSize_default:
  assumes "opt_batchSize opts = None \<or> opt_batchSize opts = Some 0"
  shows "batchSize (constructor opts env) = 10 \<and>
         (\<exists>log out. sendBatch (constructor opts env) provider ns = Some (log, out) \<and>
            prefix (batches_of log) (chunks 10 ns) \<and>
            (list_all has_string_token ns \<longrightarrow>
               (\<exists>rs. out = Inr rs \<and> batches_of log = chunks 10 ns \<and> length rs = length ns)))"
proof -
  have b: "batchSize (constructor opts env) = 10"
    using assms by (auto simp: constructor_def)
  then have pos: "0 < batchSize (constructor opts env)" by simp
  from loop_settles[OF pos, of 0 provider ns "[]" "[]"] b obtain log out where
    S: "sendBatch (constructor opts env) provider ns = Some (log, out)"
    and P: "prefix (batches_of log) (chunks 10 ns)"
    by (auto simp: sendBatch_def)
  have "\<exists>rs. out = Inr rs \<and> batches_of log = chunks 10 ns \<and> length rs = length ns"
    if "list_all has_string_token ns"
  proof -
    from that have "\<forall>n\<in>set ns. \<exists>t. fcmToken n = JString t" by (rule string_tokens)
    from sendBatch_returns[OF pos this, of provider] S b show ?thesis by auto
  qed
  with b S P show ?thesis by blast
qed

theorem batchSize_default_witness:
  "(opt_batchSize (no_options\<lparr>opt_batchSize := Some 0\<rparr>) = None \<or>
    opt_batchSize (no_options\<lparr>opt_batchSize := Some 0\<rparr>) = Some 0) \<and>
   list_all has_string_token twenty_five \<and>
   batchSize (constructor (no_options\<lparr>opt_batchSize := Some 0\<rparr>) None) = 10 \<and>
   (\<exists>log rs. sendBatch (constructor (no_options\<lparr>opt_batchSize := Some 0\<rparr>) None)
                (\<lambda>p. always_resolves) twenty_five = Some (log, Inr rs) \<and>
      map length (batches_of log) = [10, 10, 5] \<and> length rs = 25)"
proof -
  have h1: "opt_batchSize (no_options\<lparr>opt_batchSize := Some 0\<rparr>) = None \<or>
    opt_batchSize (no_options\<lparr>opt_batchSize := Some 0\<rparr>) = Some 0" by simp
  have h2: "list_all has_string_token twenty_five"
    by (simp add: twenty_five_def titled_def has_string_token_def list_all_iff)
  have l: "length twenty_five = 25" by (simp add: twenty_five_def)
  from batchSize_default[OF h1, of None "\<lambda>p. always_resolves" twenty_five] h1 h2 l
  show ?thesis by (auto simp: chunks_twenty_five)
qed

section \<open>The token validator\<close>

text \<open>
  C7, as the specification states it, fails for \<open>validateTokenFormat\<close>: a token of
  150 letters \<open>a\<close> is a non-empty string of an allowed length and of allowed
  characters only, \<open>validateFCMToken\<close> accepts it, and \<open>validateTokenFormat\<close>
  rejects it, because it has no colon.
\<close>

theorem validator_acceptance_counterexample:
  "replicate 150 (CHR ''a'') \<noteq> [] \<and> 140 \<le> length (replicate 150 (CHR ''a'')) \<and>
   length (replicate 150 (CHR ''a'')) \<le> 200 \<and> list_all allowed_char (replicate 150 (CHR ''a'')) \<and>
   validateFCMToken (JString (replicate 150 (CHR ''a''))) \<and>
   \<not> valid (validateTokenFormat (JString (replicate 150 (CHR ''a'')))) \<and>
   errors (validateTokenFormat (JString (replicate 150 (CHR ''a''))))
     = [''Token does not match expected FCM format'']"
proof -
  have al: "list_all allowed_char (replicate 150 (CHR ''a''))"
    by (simp add: list_all_iff allowed_char_def)
  have wc: "word_char (CHR ''a'')" by (simp add: word_char_def)
  have nf: "\<not> fcm_format (replicate 150 (CHR ''a''))"
    using wc by (simp add: fcm_format_def)
  have ne: "replicate 150 (CHR ''a'') \<noteq> []" by simp
  from al nf ne show ?thesis by (simp add: only_allowed_def Let_def)
qed

text \<open>
  C7, as the code has it. \<open>validateFCMToken\<close> accepts a value exactly when it is a
  non-empty string of 140 to 200 characters, all of them letters, digits, underscore,
  colon, dot or hyphen. \<open>validateTokenFormat\<close> reports a value valid exactly when,
  in addition, the string starts with one or more letters, digits, underscores or
  hyphens, then a colon, then one more letter, digit, underscore or hyphen.
\<close>

theorem validator_acceptance:
  "(validateFCMToken v \<longleftrightarrow>
      (\<exists>t. v = JString t \<and> t \<noteq> [] \<and> 140 \<le> length t \<and> length t \<le> 200 \<and> list_all allowed_char t)) \<and>
   (valid (validateTokenFormat v) \<longleftrightarrow>
      (\<exists>t. v = JString t \<and> t \<noteq> [] \<and> 140 \<le> length t \<and> length t \<le> 200 \<and> list_all allowed_char t \<and>
           (\<exists>w d rest. w \<noteq> [] \<and> list_all word_char w \<and> word_char d \<and> t = w @ CHR '':'' # d # rest)))"
proof (cases v)
  case (JString t)
  have a: "validateFCMToken (JString t) \<longleftrightarrow>
      (t \<noteq> [] \<and> 140 \<le> length t \<and> length t \<le> 200 \<and> list_all allowed_char t)"
    by (auto simp: only_allowed_def)
  have b: "valid (validateTokenFormat (JString t)) \<longleftrightarrow>
      (t \<noteq> [] \<and> 140 \<le> length t \<and> length t \<le> 200 \<and> list_all allowed_char t \<and> fcm_format t)"
    by (auto simp: only_allowed_def Let_def)
  from a b JString show ?thesis by (simp add: fcm_format_iff)
qed simp_all

section \<open>The circuit breaker\<close>

text \<open>
  C6, as the specification states it, fails: the sender has no circuit breaker. With
  \<open>maxRetries = 5\<close> and a provider that rejects every publish with a transient
  error, the provider is called six times, and the result carries the error of the
  provider.
\<close>

theorem circuit_breaker_counterexample:
  "publishes (fst (sendSingleNotification (constructor (no_options\<lparr>opt_maxRetries := Some 5\<rparr>) None)
                    (always_rejects Transient) (titled (JString ''dGVzdC10b2tlbi0x'')) 0)) = 6 \<and>
   snd (sendSingleNotification (constructor (no_options\<lparr>opt_maxRetries := Some 5\<rparr>) None)
          (always_rejects Transient) (titled (JString ''dGVzdC10b2tlbi0x'')) 0)
     = Inr \<lparr> success = JBool False, messageId = JUndefined,
              error = JString ''Service Unavailable'', tokenPrefix = JString ''dGVzdC10b2...'' \<rparr>"
  by (simp add: sendSingleNotification.simps try_send_def failure_record_def always_rejects_def
        constructor_def no_options_def titled_def)

text \<open>
  C6, as the code has it. The trip property holds of the class \<open>CircuitBreaker\<close> of
  the runbook: after \<open>threshold\<close> failed calls in a row on a new breaker, each of
  which invoked its operation, the breaker is open, and a call made no later than
  \<open>timeout\<close> after the last failure fails with the error
  \<open>Circuit breaker is OPEN\<close> without invoking its operation and leaves the breaker
  as it is. The sender does not use the class: every attempt of
  \<open>sendSingleNotification\<close> starts with a call of the provider.
\<close>

theorem circuit_breaker_trip:
  assumes "0 < threshold (new_CircuitBreaker th tmo)"
    and "length cs = nat (threshold (new_CircuitBreaker th tmo))"
    and "list_all (\<lambda>c. isl (fst (snd c))) cs"
    and "now - snd (snd (last cs)) \<le> timeout (new_CircuitBreaker th tmo)"
  shows "(state (fst (calls (new_CircuitBreaker th tmo) cs)) = OPEN \<and>
          list_all fst (snd (calls (new_CircuitBreaker th tmo) cs)) \<and>
          call (fst (calls (new_CircuitBreaker th tmo) cs)) now outcome later =
            (fst (calls (new_CircuitBreaker th tmo) cs), False,
             Inl (PlainError ''Circuit breaker is OPEN''))) \<and>
         (\<exists>tr. fst (sendSingleNotification s publish n k) = Publish (params_of s n) # tr)"
proof
  let ?b0 = "new_CircuitBreaker th tmo"
  have ne: "cs \<noteq> []" using assms(1,2) by auto
  have "state ?b0 = CLOSED" by (simp add: new_CircuitBreaker_def)
  moreover have "failureCount ?b0 + int (length cs) = threshold ?b0"
    using assms(1,2) by (simp add: new_CircuitBreaker_def)
  ultimately have o: "state (fst (calls ?b0 cs)) = OPEN"
    and l: "lastFailureTime (fst (calls ?b0 cs)) = Some (snd (snd (last cs)))"
    and t: "timeout (fst (calls ?b0 cs)) = timeout ?b0"
    and i: "list_all fst (snd (calls ?b0 cs))"
    using failing_calls_open[OF _ _ ne assms(3), of ?b0] by simp_all
  from o l t assms(4) have "call (fst (calls ?b0 cs)) now outcome later =
            (fst (calls ?b0 cs), False, Inl (PlainError ''Circuit breaker is OPEN''))"
    by (simp add: call_def)
  with o i show "state (fst (calls ?b0 cs)) = OPEN \<and> list_all fst (snd (calls ?b0 cs)) \<and>
          call (fst (calls ?b0 cs)) now outcome later =
            (fst (calls ?b0 cs), False, Inl (PlainError ''Circuit breaker is OPEN''))"
    by simp
  show "\<exists>tr. fst (sendSingleNotification s publish n k) = Publish (params_of s n) # tr"
    by (subst sendSingleNotification.simps) (auto split: sum.splits prod.splits)
qed

text \<open>
  An instance: a breaker with the default threshold 5 and timeout 60000, five failed
  calls, and a sixth call 900 milliseconds after the fifth failure.
\<close>

theorem circuit_breaker_trip_witness:
  "0 < threshold (new_CircuitBreaker None None) \<and>
   length five_failures = nat (threshold (new_CircuitBreaker None None)) \<and>
   list_all (\<lambda>c. isl (fst (snd c))) five_failures \<and>
   6000 - snd (snd (last five_failures)) \<le> timeout (new_CircuitBreaker None None) \<and>
   state (fst (calls (new_CircuitBreaker None None) five_failures)) = OPEN \<and>
   fst (snd (call (fst (calls (new_CircuitBreaker None None) five_failures)) 6000 (Inr ()) 6100))
     = False \<and>
   snd (snd (call (fst (calls (new_CircuitBreaker None None) five_failures)) 6000 (Inr ()) 6100))
     = Inl (PlainError ''Circuit breaker is OPEN'')"
proof -
  have h1: "0 < threshold (new_CircuitBreaker None None)"
    by (simp add: new_CircuitBreaker_def)
  have h2: "length five_failures = nat (threshold (new_CircuitBreaker None None))"
    by (simp add: five_failures_def new_CircuitBreaker_def)
  have h3: "list_all (\<lambda>c. isl (fst (snd c))) five_failures" by (simp add: five_failures_def)
  have h4: "6000 - snd (snd (last five_failures)) \<le> timeout (new_CircuitBreaker None None)"
    by (simp add: five_failures_def new_CircuitBreaker_def)
  from circuit_breaker_trip[OF h1 h2 h3 h4, of "Inr ()" 6100] h1 h2 h3 h4
  show ?thesis by simp
qed

end
